theory Spec2Isabelle
  imports Main
begin

section \<open>Deferred warnings of warned-dataclasses\<close>

text \<open>
  A shallow embedding of \<^verbatim>\<open>src/warned_dataclasses/__init__.py\<close>.

  Python objects that are mutated and shared (the \<^verbatim>\<open>DeferredWarning\<close> instances, which
  both a field and the registry refer to) live in an explicit store, addressed by natural
  numbers. An exception is a value \<open>Inl e\<close>; every operation returns its result together
  with the state it leaves behind, because the effects that happened before a raise stay.
\<close>

subsection \<open>Exceptions\<close>

text \<open>
  The exceptions the module raises, each with its argument. \<open>KeyError\<close> is raised for an
  undeclared condition, \<open>ValueError\<close> for a warning invoked without a message and for
  contradictory defaults, \<open>AttributeError\<close> (carrying the name of the attribute that was
  looked up) by an attribute access on an object that lacks it, and \<open>TypeError\<close> stands for
  what the standard library's class processing may raise.
\<close>

datatype exn =
    ValueError string
  | KeyError string
  | AttributeError string
  | TypeError string
  | ConditionalParameterError string

subsection \<open>The class DeferredWarning\<close>

record DeferredWarning =
  condition :: string
  deferred_message :: "string \<Rightarrow> string"
  satisfied :: bool
  error :: bool
  message :: "string option"

type_synonym addr = nat

text \<open>
  The state of the process as far as the module touches it: the store of warnings with its
  allocation pointer, the module-level dictionary \<^verbatim>\<open>DEFERRED_WARNINGS\<close> (insertion-ordered,
  hence an association list with distinct keys, each list holding references), the messages
  handed to \<^verbatim>\<open>logger.warning\<close>, and the lines written by \<^verbatim>\<open>print\<close>.
\<close>

record state =
  store :: "addr \<Rightarrow> DeferredWarning"
  next_addr :: addr
  DEFERRED_WARNINGS :: "(string \<times> addr list) list"
  logged :: "string list"
  printed :: "string list"

text \<open>\<^verbatim>\<open>DeferredWarning.__init__\<close>: prints, then sets the five attributes.\<close>

definition DeferredWarning_init ::
  "string \<Rightarrow> (string \<Rightarrow> string) \<Rightarrow> bool \<Rightarrow> state \<Rightarrow> addr \<times> state" where
  "DeferredWarning_init c dm e s =
     (next_addr s,
      s\<lparr>store := (store s)(next_addr s :=
            \<lparr>condition = c, deferred_message = dm, satisfied = False, error = e,
             message = None\<rparr>),
        next_addr := Suc (next_addr s),
        printed := printed s @ [''initialized'']\<rparr>)"

text \<open>\<^verbatim>\<open>DeferredWarning.satisfy\<close>.\<close>

definition dw_satisfy :: "addr \<Rightarrow> state \<Rightarrow> state" where
  "dw_satisfy a s = s\<lparr>store := (store s)(a := (store s a)\<lparr>satisfied := True\<rparr>)\<rparr>"

text \<open>\<^verbatim>\<open>DeferredWarning.supply_parameter\<close>.\<close>

definition supply_parameter :: "addr \<Rightarrow> string \<Rightarrow> state \<Rightarrow> state" where
  "supply_parameter a param s =
     s\<lparr>store := (store s)(a :=
          (store s a)\<lparr>message := Some (deferred_message (store s a) param)\<rparr>)\<rparr>"

text \<open>\<^verbatim>\<open>DeferredWarning.invoke\<close>.\<close>

definition dw_invoke :: "addr \<Rightarrow> state \<Rightarrow> (exn + unit) \<times> state" where
  "dw_invoke a s =
     (if \<not> satisfied (store s a) then
        (case message (store s a) of
           None \<Rightarrow> (Inl (ValueError ''didn't supply parameter!''), s)
         | Some m \<Rightarrow>
             if error (store s a) then (Inl (ConditionalParameterError m), s)
             else (Inr (), s\<lparr>logged := logged s @ [m]\<rparr>))
      else (Inr (), s))"

subsection \<open>The registry functions\<close>

definition dq :: char where
  "dq = CHR 0x22"

text \<open>\<^verbatim>\<open>satisfy(key)\<close>: the membership test, then the loop over the list under the key.\<close>

definition satisfy :: "string \<Rightarrow> state \<Rightarrow> (exn + unit) \<times> state" where
  "satisfy key s =
     (case map_of (DEFERRED_WARNINGS s) key of
        None \<Rightarrow>
          (Inl (KeyError (''Condition '' @ [dq] @ key @ [dq] @
                  '' has not been declared and could not be disarmed.'')), s)
      | Some ws \<Rightarrow> (Inr (), fold dw_satisfy ws s))"

text \<open>The loop of \<^verbatim>\<open>invoke\<close>: a raise ends it with the state reached so far.\<close>

fun invoke_each :: "addr list \<Rightarrow> state \<Rightarrow> (exn + unit) \<times> state" where
  "invoke_each [] s = (Inr (), s)"
| "invoke_each (a # rest) s =
     (case dw_invoke a s of
        (Inl e, s') \<Rightarrow> (Inl e, s')
      | (Inr u, s') \<Rightarrow> invoke_each rest s')"

definition invoke :: "string \<Rightarrow> state \<Rightarrow> (exn + unit) \<times> state" where
  "invoke key s =
     (case map_of (DEFERRED_WARNINGS s) key of
        None \<Rightarrow>
          (Inl (KeyError (''Condition '' @ [dq] @ key @ [dq] @
                  '' has not been declared and could not be invoked'')), s)
      | Some ws \<Rightarrow> invoke_each ws s)"

text \<open>\<^verbatim>\<open>invoke_all\<close>: the keys in the dictionary's order.\<close>

fun invoke_keys :: "string list \<Rightarrow> state \<Rightarrow> (exn + unit) \<times> state" where
  "invoke_keys [] s = (Inr (), s)"
| "invoke_keys (k # ks) s =
     (case invoke k s of
        (Inl e, s') \<Rightarrow> (Inl e, s')
      | (Inr u, s') \<Rightarrow> invoke_keys ks s')"

definition invoke_all :: "state \<Rightarrow> (exn + unit) \<times> state" where
  "invoke_all s = invoke_keys (map fst (DEFERRED_WARNINGS s)) s"

subsection \<open>Field specifications\<close>

text \<open>
  \<^verbatim>\<open>WarnedField\<close> extends the standard library's \<^verbatim>\<open>Field\<close> by the slot
  \<^verbatim>\<open>_deferred_warning\<close>. The record holds the slot and the seven arguments that
  \<^verbatim>\<open>WarnedField.__init__\<close> passes on; \<open>None\<close> as a default stands for \<^verbatim>\<open>MISSING\<close>. The
  attributes \<^verbatim>\<open>name\<close> and \<^verbatim>\<open>type\<close> are filled in later by the standard library's class
  processing and are not part of the specification object.
\<close>

record 'v WarnedField =
  default_val :: "'v option"
  default_factory :: "(unit \<Rightarrow> 'v) option"
  init :: bool
  repr :: bool
  hash :: "bool option"
  compare :: bool
  metadata :: "(string \<times> 'v) list"
  deferred_warning :: "addr option"

text \<open>
  \<^verbatim>\<open>WarnedField.__init__\<close>. The base initialiser belongs to the standard library; it is
  taken with the seven-argument signature of Python 3.8 and 3.9, which is the one the source
  calls, and stores its arguments (an absent metadata mapping becomes the empty one).
\<close>

definition WarnedField_init ::
  "addr option \<Rightarrow> 'v option \<Rightarrow> (unit \<Rightarrow> 'v) option \<Rightarrow> bool \<Rightarrow> bool \<Rightarrow> bool option \<Rightarrow> bool \<Rightarrow>
   (string \<times> 'v) list option \<Rightarrow> 'v WarnedField" where
  "WarnedField_init dw dflt dfac i r h c m =
     \<lparr>default_val = dflt, default_factory = dfac, init = i, repr = r, hash = h, compare = c,
      metadata = (case m of None \<Rightarrow> [] | Some kvs \<Rightarrow> kvs),
      deferred_warning = dw\<rparr>"

text \<open>The message function that \<^verbatim>\<open>field\<close> builds for a condition (the two f-strings).\<close>

definition field_message :: "string \<Rightarrow> string \<Rightarrow> string" where
  "field_message cond parameter =
     ''Value provided for --'' @ parameter @ '' but '' @
     ''required condition '' @ [dq] @ cond @ [dq] @ '' not met.''"

text \<open>
  \<^verbatim>\<open>field\<close>: the warning is created first (when a condition is given), the test of the
  two defaults comes after it.
\<close>

definition field ::
  "string option \<Rightarrow> bool \<Rightarrow> 'v option \<Rightarrow> (unit \<Rightarrow> 'v) option \<Rightarrow> bool \<Rightarrow> bool \<Rightarrow> bool option \<Rightarrow>
   bool \<Rightarrow> (string \<times> 'v) list option \<Rightarrow> state \<Rightarrow> (exn + 'v WarnedField) \<times> state" where
  "field cond error_on_invoke dflt dfac i r h c m s =
     (let (dw, s1) =
        (case cond of
           Some cnd \<Rightarrow>
             (let (a, s') = DeferredWarning_init cnd (field_message cnd) error_on_invoke s
              in (Some a, s'))
         | None \<Rightarrow> (None, s))
      in if dflt \<noteq> None \<and> dfac \<noteq> None
         then (Inl (ValueError ''cannot specify both default and default_factory''), s1)
         else (Inr (WarnedField_init dw dflt dfac i r h c m), s1))"

subsection \<open>The class decorator\<close>

text \<open>
  The standard library's \<^verbatim>\<open>_process_class\<close> and the attribute it stores under
  \<^verbatim>\<open>_FIELDS\<close> are not part of the repository. They are parameters of the model:
  \<open>process_class\<close> yields the processed class or raises, and \<open>FIELDS\<close> gives the sequence of
  objects that iterating \<^verbatim>\<open>getattr(cls, _FIELDS)\<close> produces. The loop body reads two
  attributes of each object, so an object is one of two kinds: a \<^verbatim>\<open>WarnedField\<close> whose
  \<^verbatim>\<open>name\<close> the processing has set, or an object without the attribute
  \<^verbatim>\<open>_deferred_warning\<close> (a plain \<^verbatim>\<open>Field\<close>, made for an attribute that was not declared
  through this module's \<^verbatim>\<open>field\<close>, or a key of a dictionary, since iterating a Python
  dictionary yields its keys).
\<close>

datatype 'v table_item =
    FieldItem string "'v WarnedField"
  | NoAttrItem

text \<open>
  \<^verbatim>\<open>DEFERRED_WARNINGS[key].append(a)\<close> on a \<^verbatim>\<open>defaultdict(list)\<close>: a missing key is
  inserted (at the end) with an empty list first.
\<close>

fun registry_append :: "string \<Rightarrow> addr \<Rightarrow> (string \<times> addr list) list \<Rightarrow> (string \<times> addr list) list" where
  "registry_append key a [] = [(key, [a])]"
| "registry_append key a ((k, ws) # reg) =
     (if k = key then (k, ws @ [a]) # reg else (k, ws) # registry_append key a reg)"

text \<open>The loop of \<^verbatim>\<open>_warned_process_class\<close>.\<close>

fun register_items :: "'v table_item list \<Rightarrow> state \<Rightarrow> (exn + unit) \<times> state" where
  "register_items [] s = (Inr (), s)"
| "register_items (NoAttrItem # rest) s = (Inl (AttributeError ''_deferred_warning''), s)"
| "register_items (FieldItem nm f # rest) s =
     (case deferred_warning f of
        None \<Rightarrow> (Inl (AttributeError ''supply_parameter''), s)
      | Some a \<Rightarrow>
          (let s1 = supply_parameter a nm s
           in register_items rest
                (s1\<lparr>DEFERRED_WARNINGS :=
                      registry_append (condition (store s1 a)) a (DEFERRED_WARNINGS s1)\<rparr>)))"

text \<open>What a Python function hands back: a class, or \<^verbatim>\<open>None\<close>.\<close>

datatype 'c pyret = PyNone | PyClass 'c

text \<open>
  \<^verbatim>\<open>_warned_process_class\<close>: the function body ends after the loop, without a
  \<^verbatim>\<open>return\<close> statement, so a call that does not raise evaluates to \<^verbatim>\<open>None\<close>.
\<close>

definition warned_process_class ::
  "('c \<Rightarrow> bool \<Rightarrow> bool \<Rightarrow> bool \<Rightarrow> bool \<Rightarrow> bool \<Rightarrow> bool \<Rightarrow> exn + 'c) \<Rightarrow> ('c \<Rightarrow> 'v table_item list) \<Rightarrow>
   'c \<Rightarrow> bool \<Rightarrow> bool \<Rightarrow> bool \<Rightarrow> bool \<Rightarrow> bool \<Rightarrow> bool \<Rightarrow> state \<Rightarrow> (exn + 'c pyret) \<times> state" where
  "warned_process_class process_class FIELDS cls i r e ord uh fr s =
     (case process_class cls i r e ord uh fr of
        Inl ex \<Rightarrow> (Inl ex, s)
      | Inr cls' \<Rightarrow>
          (case register_items (FIELDS cls') s of
             (Inl ex, s') \<Rightarrow> (Inl ex, s')
           | (Inr u, s') \<Rightarrow> (Inr PyNone, s')))"

text \<open>
  \<^verbatim>\<open>dataclass\<close>: called with a class it applies \<^verbatim>\<open>wrap\<close>; called without one (the form
  with parentheses) it returns \<^verbatim>\<open>wrap\<close>, to be applied to the class afterwards.
\<close>

datatype 'c decorated =
    Wrap "'c \<Rightarrow> state \<Rightarrow> (exn + 'c pyret) \<times> state"
  | Applied "state \<Rightarrow> (exn + 'c pyret) \<times> state"

definition dataclass ::
  "('c \<Rightarrow> bool \<Rightarrow> bool \<Rightarrow> bool \<Rightarrow> bool \<Rightarrow> bool \<Rightarrow> bool \<Rightarrow> exn + 'c) \<Rightarrow> ('c \<Rightarrow> 'v table_item list) \<Rightarrow>
   'c option \<Rightarrow> bool \<Rightarrow> bool \<Rightarrow> bool \<Rightarrow> bool \<Rightarrow> bool \<Rightarrow> bool \<Rightarrow> 'c decorated" where
  "dataclass process_class FIELDS cls i r e ord uh fr =
     (let wrap = (\<lambda>c. warned_process_class process_class FIELDS c i r e ord uh fr)
      in case cls of None \<Rightarrow> Wrap wrap | Some c \<Rightarrow> Applied (wrap c))"

text \<open>Applying the decorator to a class, in either of its two forms.\<close>

fun decorate :: "'c decorated \<Rightarrow> 'c \<Rightarrow> state \<Rightarrow> (exn + 'c pyret) \<times> state" where
  "decorate (Wrap w) c s = w c s"
| "decorate (Applied r) c s = r s"

subsection \<open>States and inputs used in examples\<close>

text \<open>
  The state right after the module is imported: an empty registry, nothing logged or
  printed, no warning allocated (every cell of the store holds a placeholder).
\<close>

definition init_state :: state where
  "init_state =
     \<lparr>store = (\<lambda>a. \<lparr>condition = [], deferred_message = (\<lambda>p. []), satisfied = False,
                   error = False, message = None\<rparr>),
      next_addr = 0, DEFERRED_WARNINGS = [], logged = [], printed = []\<rparr>"

text \<open>
  A class processing that accepts every class, for a class represented by its field table.
\<close>

definition accept_class ::
  "'v table_item list \<Rightarrow> bool \<Rightarrow> bool \<Rightarrow> bool \<Rightarrow> bool \<Rightarrow> bool \<Rightarrow> bool \<Rightarrow> exn + 'v table_item list" where
  "accept_class cls i r e ord uh fr = Inr cls"

text \<open>
  The state after the class of the spec's second scenario has been defined: field \<open>a\<close> with
  condition \<open>x\<close> in logging mode, field \<open>b\<close> with condition \<open>x\<close> in error mode, both made
  by \<open>field\<close> and registered in declaration order by the loop of the decorator.
\<close>

definition example_state :: state where
  "example_state =
     (case field (Some ''x'') False (None :: int option) None True True None True None init_state of
        (Inr fa, s1) \<Rightarrow>
          (case field (Some ''x'') True (None :: int option) None True True None True None s1 of
             (Inr fb, s2) \<Rightarrow> snd (register_items [FieldItem ''a'' fa, FieldItem ''b'' fb] s2)
           | (Inl ex, s2) \<Rightarrow> s2)
      | (Inl ex, s1) \<Rightarrow> s1)"

subsection \<open>Notions used in the statements\<close>

text \<open>
  A warning is silent when its \<^verbatim>\<open>invoke\<close> does not raise: it is satisfied, or it is in
  logging mode and has its message. What it hands to the logger is \<open>emitted\<close>.
\<close>

definition silent :: "DeferredWarning \<Rightarrow> bool" where
  "silent w = (satisfied w \<or> (\<not> error w \<and> message w \<noteq> None))"

definition emitted :: "DeferredWarning \<Rightarrow> string list" where
  "emitted w =
     (if satisfied w then [] else (case message w of None \<Rightarrow> [] | Some m \<Rightarrow> [m]))"

text \<open>An object of the field table that carries no warning.\<close>

fun no_warning :: "'v table_item \<Rightarrow> bool" where
  "no_warning NoAttrItem = True"
| "no_warning (FieldItem nm f) = (deferred_warning f = None)"

text \<open>An object of the field table whose warning, if it has one, has been created.\<close>

fun allocated :: "state \<Rightarrow> 'v table_item \<Rightarrow> bool" where
  "allocated s NoAttrItem = True"
| "allocated s (FieldItem nm f) =
     (case deferred_warning f of None \<Rightarrow> True | Some a \<Rightarrow> a < next_addr s)"

text \<open>
  The invariant of the registry: its keys are distinct (it is a dictionary), and every
  warning listed under a key has been created, has that key as its condition, and has its
  message.
\<close>

definition registry_ok :: "state \<Rightarrow> bool" where
  "registry_ok s =
     (distinct (map fst (DEFERRED_WARNINGS s)) \<and>
      list_all
        (\<lambda>(k, ws). list_all
           (\<lambda>a. a < next_addr s \<and> message (store s a) \<noteq> None \<and> condition (store s a) = k) ws)
        (DEFERRED_WARNINGS s))"

section \<open>Properties\<close>

subsection \<open>The dictionary\<close>

lemma map_of_registry_append:
  "map_of (registry_append key a reg) =
   (map_of reg)(key \<mapsto> (case map_of reg key of None \<Rightarrow> [] | Some ws \<Rightarrow> ws) @ [a])"
  by (induction key a reg rule: registry_append.induct) (auto simp: fun_eq_iff)

lemma keys_registry_append:
  "map fst (registry_append key a reg) =
   (if key \<in> set (map fst reg) then map fst reg else map fst reg @ [key])"
  by (induction key a reg rule: registry_append.induct) auto

lemma distinct_registry_append:
  "distinct (map fst reg) \<Longrightarrow> distinct (map fst (registry_append key a reg))"
  by (simp add: keys_registry_append)

lemma set_registry_append:
  "(k, ws) \<in> set (registry_append key a reg) \<Longrightarrow>
   (k, ws) \<in> set reg \<or>
   (k = key \<and> (\<exists>old. ws = old @ [a] \<and> (old = [] \<or> (key, old) \<in> set reg)))"
  by (induction key a reg rule: registry_append.induct) (auto split: if_splits)

subsection \<open>The loops over the warnings of a key\<close>

lemma dw_invoke_silent:
  "silent (store s a) \<Longrightarrow>
   dw_invoke a s = (Inr (), s\<lparr>logged := logged s @ emitted (store s a)\<rparr>)"
  by (auto simp: silent_def emitted_def dw_invoke_def split: option.splits)

lemma invoke_each_silent_prefix:
  "list_all (\<lambda>b. silent (store s b)) pre \<Longrightarrow>
   invoke_each (pre @ rest) s =
   invoke_each rest (s\<lparr>logged := logged s @ concat (map (\<lambda>b. emitted (store s b)) pre)\<rparr>)"
proof (induction pre arbitrary: s)
  case Nil
  then show ?case by simp
next
  case (Cons b pre)
  let ?s1 = "s\<lparr>logged := logged s @ emitted (store s b)\<rparr>"
  have step: "dw_invoke b s = (Inr (), ?s1)"
    using Cons.prems by (simp add: dw_invoke_silent)
  have "list_all (\<lambda>b. silent (store ?s1 b)) pre"
    using Cons.prems by simp
  from Cons.IH [OF this] show ?case
    by (simp add: step)
qed

lemma fold_dw_satisfy:
  "fold dw_satisfy ws s =
   s\<lparr>store := (\<lambda>a. if a \<in> set ws then (store s a)\<lparr>satisfied := True\<rparr> else store s a)\<rparr>"
proof (induction ws arbitrary: s)
  case Nil
  then show ?case by simp
next
  case (Cons w ws)
  show ?case
    by (simp add: Cons.IH) (auto simp: dw_satisfy_def fun_eq_iff)
qed

lemma invoke_each_satisfied:
  "list_all (\<lambda>b. satisfied (store s b)) ws \<Longrightarrow> invoke_each ws s = (Inr (), s)"
  by (induction ws) (auto simp: dw_invoke_def)

lemma dw_invoke_store:
  "store (snd (dw_invoke a s)) = store s
   \<and> next_addr (snd (dw_invoke a s)) = next_addr s
   \<and> DEFERRED_WARNINGS (snd (dw_invoke a s)) = DEFERRED_WARNINGS s"
  by (simp add: dw_invoke_def split: option.splits)

lemma invoke_each_store:
  "store (snd (invoke_each ws s)) = store s
   \<and> next_addr (snd (invoke_each ws s)) = next_addr s
   \<and> DEFERRED_WARNINGS (snd (invoke_each ws s)) = DEFERRED_WARNINGS s"
proof (induction ws arbitrary: s)
  case Nil
  then show ?case by simp
next
  case (Cons a ws)
  obtain res s' where step: "dw_invoke a s = (res, s')"
    by (cases "dw_invoke a s")
  with dw_invoke_store [of a s]
  have same: "store s' = store s" "next_addr s' = next_addr s"
    "DEFERRED_WARNINGS s' = DEFERRED_WARNINGS s"
    by simp_all
  show ?case
    using Cons.IH [of s'] by (cases res) (simp_all add: step same)
qed

subsection \<open>The invariant of the registry\<close>

text \<open>
  The invariant holds when the module has been imported and is kept by every operation of
  the module, so it holds in every state a program can reach through them.
\<close>

lemma registry_ok_init: "registry_ok init_state"
  by (simp add: registry_ok_def init_state_def)

lemma DeferredWarning_init_ok:
  assumes "registry_ok s"
  shows "registry_ok (snd (DeferredWarning_init c dm e s))"
proof -
  let ?s1 = "snd (DeferredWarning_init c dm e s)"
  have reg: "DEFERRED_WARNINGS ?s1 = DEFERRED_WARNINGS s"
    and nxt: "next_addr ?s1 = Suc (next_addr s)"
    by (simp_all add: DeferredWarning_init_def)
  have same: "a < next_addr s \<Longrightarrow> store ?s1 a = store s a" for a
    by (simp add: DeferredWarning_init_def)
  have "a < Suc (next_addr s) \<and> message (store ?s1 a) \<noteq> None \<and> condition (store ?s1 a) = k"
    if "(k, ws) \<in> set (DEFERRED_WARNINGS s)" and "a \<in> set ws" for k ws a
  proof -
    from assms that
    have old: "a < next_addr s \<and> message (store s a) \<noteq> None \<and> condition (store s a) = k"
      by (auto simp: registry_ok_def list_all_iff)
    with same [of a] show ?thesis by simp
  qed
  with assms show ?thesis
    by (auto simp: registry_ok_def list_all_iff reg nxt)
qed

lemma field_ok:
  "registry_ok s \<Longrightarrow> registry_ok (snd (field cond e dflt dfac i r h c m s))"
proof (cases cond)
  case None
  assume "registry_ok s"
  with None show ?thesis by (simp add: field_def)
next
  case (Some k)
  assume "registry_ok s"
  then have "registry_ok (snd (DeferredWarning_init k (field_message k) e s))"
    by (rule DeferredWarning_init_ok)
  with Some show ?thesis
    by (auto simp: field_def Let_def split: prod.splits)
qed

lemma register_step_ok:
  assumes "registry_ok s" and "a < next_addr s"
  shows "registry_ok
           ((supply_parameter a nm s)\<lparr>DEFERRED_WARNINGS :=
               registry_append (condition (store (supply_parameter a nm s) a)) a
                 (DEFERRED_WARNINGS (supply_parameter a nm s))\<rparr>)"
proof -
  let ?s1 = "supply_parameter a nm s"
  have cond: "condition (store ?s1 b) = condition (store s b)" for b
    by (simp add: supply_parameter_def)
  have msg: "message (store s b) \<noteq> None \<Longrightarrow> message (store ?s1 b) \<noteq> None" for b
    by (simp add: supply_parameter_def)
  have msg_a: "message (store ?s1 a) \<noteq> None"
    by (simp add: supply_parameter_def)
  have reg: "DEFERRED_WARNINGS ?s1 = DEFERRED_WARNINGS s"
    and nxt: "next_addr ?s1 = next_addr s"
    by (simp_all add: supply_parameter_def)
  have old: "(k, ws) \<in> set (DEFERRED_WARNINGS s) \<Longrightarrow> b \<in> set ws \<Longrightarrow>
      b < next_addr s \<and> message (store ?s1 b) \<noteq> None \<and> condition (store ?s1 b) = k"
    for k ws b
    using assms(1) msg [of b] by (auto simp: registry_ok_def list_all_iff cond)
  have "b < next_addr s \<and> message (store ?s1 b) \<noteq> None \<and> condition (store ?s1 b) = k"
    if "(k, ws) \<in> set (registry_append (condition (store ?s1 a)) a (DEFERRED_WARNINGS s))"
      and "b \<in> set ws" for k ws b
    using set_registry_append [OF that(1)] that(2) old msg_a assms(2) by auto
  moreover
  have "distinct (map fst (registry_append (condition (store ?s1 a)) a (DEFERRED_WARNINGS s)))"
    using assms(1) by (simp add: registry_ok_def distinct_registry_append)
  ultimately show ?thesis
    by (auto simp: registry_ok_def list_all_iff reg nxt)
qed

lemma register_items_ok:
  "registry_ok s \<Longrightarrow> list_all (allocated s) (items :: 'v table_item list) \<Longrightarrow>
   registry_ok (snd (register_items items s))"
proof (induction items s rule: register_items.induct)
  case (1 s)
  then show ?case by simp
next
  case (2 rest s)
  then show ?case by simp
next
  case (3 nm f rest s)
  show ?case
  proof (cases "deferred_warning f")
    case None
    with "3.prems" show ?thesis by simp
  next
    case (Some a)
    let ?s2 = "(supply_parameter a nm s)\<lparr>DEFERRED_WARNINGS :=
                 registry_append (condition (store (supply_parameter a nm s) a)) a
                   (DEFERRED_WARNINGS (supply_parameter a nm s))\<rparr>"
    from "3.prems" Some have a: "a < next_addr s" by simp
    have "allocated ?s2 x = allocated s x" for x :: "'v table_item"
      by (cases x) (simp_all add: supply_parameter_def split: option.splits)
    then have "allocated ?s2 = (allocated s :: 'v table_item \<Rightarrow> bool)"
      by (simp add: fun_eq_iff)
    with "3.prems" have rest: "list_all (allocated ?s2) rest" by simp
    from "3.IH" [OF Some refl register_step_ok [OF "3.prems"(1) a] rest] Some show ?thesis
      by (simp add: Let_def)
  qed
qed

lemma satisfy_ok: "registry_ok s \<Longrightarrow> registry_ok (snd (satisfy key s))"
  by (auto simp: satisfy_def registry_ok_def fold_dw_satisfy list_all_iff split: option.splits)

lemma invoke_ok: "registry_ok s \<Longrightarrow> registry_ok (snd (invoke key s))"
  by (auto simp: invoke_def registry_ok_def invoke_each_store split: option.splits)

text \<open>
  Under the invariant every registered warning has its message, so a registered warning is
  silent exactly when it is satisfied or in logging mode.
\<close>

lemma registry_ok_silent:
  "registry_ok s \<Longrightarrow> map_of (DEFERRED_WARNINGS s) key = Some ws \<Longrightarrow> b \<in> set ws \<Longrightarrow>
   silent (store s b) = (satisfied (store s b) \<or> \<not> error (store s b))"
  by (auto simp: registry_ok_def silent_def list_all_iff dest!: map_of_SomeD)

text \<open>
  The loop of the decorator adds a key only as the condition of a warning it registers; no
  other operation of the module adds a key.
\<close>

lemma register_items_keys:
  "k \<in> set (map fst (DEFERRED_WARNINGS (snd (register_items items s)))) \<Longrightarrow>
   k \<in> set (map fst (DEFERRED_WARNINGS s)) \<or>
   (\<exists>nm f a. FieldItem nm f \<in> set items \<and> deferred_warning f = Some a
      \<and> condition (store s a) = k)"
proof (induction items s rule: register_items.induct)
  case (1 s)
  then show ?case by simp
next
  case (2 rest s)
  then show ?case by simp
next
  case (3 nm f rest s)
  show ?case
  proof (cases "deferred_warning f")
    case None
    with "3.prems" show ?thesis by simp
  next
    case (Some a)
    let ?s1 = "supply_parameter a nm s"
    let ?s2 = "?s1\<lparr>DEFERRED_WARNINGS :=
                 registry_append (condition (store ?s1 a)) a (DEFERRED_WARNINGS ?s1)\<rparr>"
    have cond: "condition (store ?s2 b) = condition (store s b)" for b
      by (simp add: supply_parameter_def)
    from "3.prems" Some
    have "k \<in> set (map fst (DEFERRED_WARNINGS (snd (register_items rest ?s2))))"
      by (simp add: Let_def)
    from "3.IH" [OF Some refl this]
    consider "k \<in> set (map fst (DEFERRED_WARNINGS ?s2))"
      | "\<exists>nm f a. FieldItem nm f \<in> set rest \<and> deferred_warning f = Some a
           \<and> condition (store s a) = k"
      using cond by auto
    then show ?thesis
    proof cases
      case 1
      then have "k \<in> set (map fst (DEFERRED_WARNINGS s)) \<or> k = condition (store s a)"
        by (auto simp: keys_registry_append supply_parameter_def split: if_splits)
      with Some show ?thesis by auto
    next
      case 2
      then show ?thesis by auto
    qed
  qed
qed

lemma satisfy_keys: "DEFERRED_WARNINGS (snd (satisfy key s)) = DEFERRED_WARNINGS s"
  by (simp add: satisfy_def fold_dw_satisfy split: option.splits)

lemma invoke_keys_unchanged: "DEFERRED_WARNINGS (snd (invoke key s)) = DEFERRED_WARNINGS s"
  by (simp add: invoke_def invoke_each_store split: option.splits)

subsection \<open>The example state\<close>

lemma example_state_registry: "DEFERRED_WARNINGS example_state = [(''x'', [0, 1])]"
  by (simp add: example_state_def field_def DeferredWarning_init_def init_state_def
      WarnedField_init_def supply_parameter_def Let_def)

lemma example_state_logged: "logged example_state = []"
  by (simp add: example_state_def field_def DeferredWarning_init_def init_state_def
      WarnedField_init_def supply_parameter_def Let_def)

lemma example_state_store_0:
  "store example_state 0 =
     \<lparr>condition = ''x'', deferred_message = field_message ''x'', satisfied = False,
      error = False, message = Some (field_message ''x'' ''a'')\<rparr>"
  by (simp add: example_state_def field_def DeferredWarning_init_def init_state_def
      WarnedField_init_def supply_parameter_def Let_def)

lemma example_state_store_1:
  "store example_state (Suc 0) =
     \<lparr>condition = ''x'', deferred_message = field_message ''x'', satisfied = False,
      error = True, message = Some (field_message ''x'' ''b'')\<rparr>"
  by (simp add: example_state_def field_def DeferredWarning_init_def init_state_def
      WarnedField_init_def supply_parameter_def Let_def)

subsection \<open>The loop of the decorator\<close>

lemma register_items_no_warning:
  "list_ex no_warning items \<Longrightarrow>
   \<exists>attr s'. register_items items s = (Inl (AttributeError attr), s')"
proof (induction items s rule: register_items.induct)
  case (1 s)
  then show ?case by simp
next
  case (2 rest s)
  then show ?case by simp
next
  case (3 nm f rest s)
  show ?case
  proof (cases "deferred_warning f")
    case None
    then show ?thesis by simp
  next
    case (Some a)
    with "3.prems" have "list_ex no_warning rest" by simp
    from "3.IH" [OF Some refl this] Some show ?thesis
      by (simp add: Let_def)
  qed
qed

lemma warned_process_class_never_returns_class:
  "fst (warned_process_class process_class FIELDS cls i r e ord uh fr s) \<noteq> Inr (PyClass c)"
  by (auto simp: warned_process_class_def split: sum.splits prod.splits)

section \<open>The claims\<close>

text \<open>
  C1. Applying the decorator to a class runs the standard library's class processing and
  then the registration loop, and returns the processed class. The docstring of
  \<^verbatim>\<open>dataclass\<close> says the same (it returns the class that was passed in). The code does
  the first two steps, but \<^verbatim>\<open>_warned_process_class\<close> has no \<^verbatim>\<open>return\<close> statement: for
  the class without fields, for which the loop has nothing to do, both forms of the
  decorator evaluate to \<^verbatim>\<open>None\<close>, so the decorated name is bound to \<^verbatim>\<open>None\<close> and not
  to the class.
\<close>

theorem dataclass_returns_None_for_empty_class:
  "decorate (dataclass accept_class id (Some []) True True True False False False) [] init_state
     = (Inr PyNone, init_state)
   \<and> decorate (dataclass accept_class id None True True True False False False) [] init_state
     = (Inr PyNone, init_state)"
  by (simp add: dataclass_def warned_process_class_def accept_class_def)

text \<open>
  C2. The registration loop visits every field of the table; a field with a warning gets
  its name supplied and its warning appended under the warning's condition, and a field
  whose warning reference is \<^verbatim>\<open>None\<close> is skipped without error. The code has no test for
  \<^verbatim>\<open>None\<close>, although \<^verbatim>\<open>field\<close> stores \<^verbatim>\<open>None\<close> whenever no condition is given: for the
  class whose only field \<open>x\<close> is declared by \<^verbatim>\<open>field(default=0)\<close>, the loop raises
  \<open>AttributeError\<close> at that field and the decorator fails. It fails as well when the
  iteration of the table yields the key \<open>x\<close> instead of the field object.
\<close>

theorem hook_raises_on_field_without_condition:
  "field None False (Some (0::int)) None True True None True None init_state
     = (Inr (WarnedField_init None (Some 0) None True True None True None), init_state)
   \<and> warned_process_class accept_class id
        [FieldItem ''x'' (WarnedField_init None (Some (0::int)) None True True None True None)]
        True True True False False False init_state
     = (Inl (AttributeError ''supply_parameter''), init_state)
   \<and> warned_process_class accept_class id [NoAttrItem :: int table_item]
        True True True False False False init_state
     = (Inl (AttributeError ''_deferred_warning''), init_state)"
  by (simp add: field_def warned_process_class_def accept_class_def WarnedField_init_def)

text \<open>
  C3. \<^verbatim>\<open>invoke(key)\<close> invokes the warnings registered under the key in registration order
  and propagates the first \<open>ConditionalParameterError\<close>, without evaluating the warnings
  after it. Let the list under the key be \<open>pre @ a # post\<close>, where no warning of \<open>pre\<close>
  raises and \<open>a\<close> is unsatisfied, in error mode, with message \<open>m\<close>. Then the call raises
  \<open>ConditionalParameterError m\<close>; what has been logged by then are the messages of the
  unsatisfied warnings of \<open>pre\<close>, in their order; nothing else has changed, whatever \<open>post\<close>
  holds.
\<close>

theorem invoke_first_error:
  assumes "map_of (DEFERRED_WARNINGS s) key = Some (pre @ a # post)"
    and "list_all (\<lambda>b. silent (store s b)) pre"
    and "\<not> satisfied (store s a)" and "error (store s a)" and "message (store s a) = Some m"
  shows "invoke key s =
         (Inl (ConditionalParameterError m),
          s\<lparr>logged := logged s @ concat (map (\<lambda>b. emitted (store s b)) pre)\<rparr>)"
  using assms by (simp add: invoke_def invoke_each_silent_prefix dw_invoke_def)

theorem invoke_first_error_witness:
  "map_of (DEFERRED_WARNINGS example_state) ''x'' = Some ([0] @ 1 # [])
   \<and> list_all (\<lambda>b. silent (store example_state b)) [0]
   \<and> \<not> satisfied (store example_state 1) \<and> error (store example_state 1)
   \<and> message (store example_state 1) = Some (field_message ''x'' ''b'')
   \<and> invoke ''x'' example_state =
       (Inl (ConditionalParameterError (field_message ''x'' ''b'')),
        example_state\<lparr>logged := [field_message ''x'' ''a'']\<rparr>)"
proof -
  have h1: "map_of (DEFERRED_WARNINGS example_state) ''x'' = Some ([0] @ 1 # [])"
    by (simp add: example_state_registry)
  have h2: "list_all (\<lambda>b. silent (store example_state b)) [0]"
    by (simp add: example_state_store_0 silent_def)
  have h3: "\<not> satisfied (store example_state 1)"
    and h4: "error (store example_state 1)"
    and h5: "message (store example_state 1) = Some (field_message ''x'' ''b'')"
    by (simp_all add: example_state_store_1)
  from invoke_first_error [OF h1 h2 h3 h4 h5] h1 h2 h3 h4 h5 show ?thesis
    by (simp add: example_state_store_0 example_state_logged emitted_def)
qed

text \<open>
  In a state that satisfies the invariant of the registry, the warning at which the call stops
  is the first one under the key that is unsatisfied and in error mode.
\<close>

lemma invoke_stops_at_first_error_mode:
  assumes "registry_ok s"
    and "map_of (DEFERRED_WARNINGS s) key = Some (pre @ a # post)"
    and "list_all (\<lambda>b. satisfied (store s b) \<or> \<not> error (store s b)) pre"
    and "\<not> satisfied (store s a)" and "error (store s a)"
  shows "\<exists>m. message (store s a) = Some m
           \<and> invoke key s =
               (Inl (ConditionalParameterError m),
                s\<lparr>logged := logged s @ concat (map (\<lambda>b. emitted (store s b)) pre)\<rparr>)"
proof -
  have "silent (store s b)" if "b \<in> set pre" for b
    using registry_ok_silent [OF assms(1,2), of b] assms(3) that
    by (simp add: list_all_iff)
  then have pre: "list_all (\<lambda>b. silent (store s b)) pre"
    by (simp add: list_all_iff)
  from assms(1,2) have "message (store s a) \<noteq> None"
    by (auto simp: registry_ok_def list_all_iff dest!: map_of_SomeD)
  then obtain m where m: "message (store s a) = Some m"
    by auto
  with assms(2,4,5) pre show ?thesis
    by (simp add: invoke_def invoke_each_silent_prefix dw_invoke_def)
qed

text \<open>
  C4. For a declared condition \<open>c\<close>: a second \<^verbatim>\<open>satisfy(c)\<close> returns as the first did and
  leaves the state the first one left; \<^verbatim>\<open>satisfy(c)\<close> logs nothing; and after it, however
  many calls of \<^verbatim>\<open>invoke(c)\<close> have been made, the state is still the one \<^verbatim>\<open>satisfy(c)\<close>
  left (so nothing was logged) and the next \<^verbatim>\<open>invoke(c)\<close> returns without raising.
\<close>

theorem satisfy_idempotent_invoke_noop:
  assumes "map_of (DEFERRED_WARNINGS s) c = Some ws"
  shows "satisfy c (snd (satisfy c s)) = satisfy c s
       \<and> logged (snd (satisfy c s)) = logged s
       \<and> ((\<lambda>t. snd (invoke c t)) ^^ n) (snd (satisfy c s)) = snd (satisfy c s)
       \<and> invoke c (((\<lambda>t. snd (invoke c t)) ^^ n) (snd (satisfy c s)))
           = (Inr (), snd (satisfy c s))"
proof -
  let ?s1 = "fold dw_satisfy ws s"
  have s1: "snd (satisfy c s) = ?s1"
    using assms by (simp add: satisfy_def)
  have reg: "DEFERRED_WARNINGS ?s1 = DEFERRED_WARNINGS s"
    by (simp add: fold_dw_satisfy)
  have twice: "fold dw_satisfy ws ?s1 = ?s1"
    by (simp add: fold_dw_satisfy fun_eq_iff)
  have idem: "satisfy c ?s1 = satisfy c s"
    using assms by (simp add: satisfy_def reg twice)
  have sat: "list_all (\<lambda>b. satisfied (store ?s1 b)) ws"
    by (simp add: fold_dw_satisfy list_all_iff)
  have inv: "invoke c ?s1 = (Inr (), ?s1)"
    using assms by (simp add: invoke_def reg invoke_each_satisfied [OF sat])
  have iter: "((\<lambda>t. snd (invoke c t)) ^^ n) ?s1 = ?s1"
    by (induction n) (simp_all add: inv)
  show ?thesis
    by (simp add: s1 idem iter inv) (simp add: fold_dw_satisfy)
qed

theorem satisfy_idempotent_invoke_noop_witness:
  "map_of (DEFERRED_WARNINGS example_state) ''x'' = Some [0, 1]
   \<and> satisfy ''x'' (snd (satisfy ''x'' example_state)) = satisfy ''x'' example_state
   \<and> logged (snd (satisfy ''x'' example_state)) = logged example_state
   \<and> invoke ''x'' (snd (invoke ''x'' (snd (invoke ''x'' (snd (satisfy ''x'' example_state))))))
       = (Inr (), snd (satisfy ''x'' example_state))"
proof -
  have h: "map_of (DEFERRED_WARNINGS example_state) ''x'' = Some [0, 1]"
    by (simp add: example_state_registry)
  from satisfy_idempotent_invoke_noop [OF h, of 2] satisfy_idempotent_invoke_noop [OF h, of 0] h
  show ?thesis
    by (simp add: numeral_2_eq_2)
qed

text \<open>
  C5. For a key that is not in the registry, that is, one under which no warning was ever
  registered (see \<open>register_items_keys\<close>), both \<^verbatim>\<open>satisfy(key)\<close> and \<^verbatim>\<open>invoke(key)\<close> raise
  the \<open>KeyError\<close> of the source (the spec's unknown-condition error) and change nothing.
\<close>

theorem undeclared_key:
  assumes "key \<notin> fst ` set (DEFERRED_WARNINGS s)"
  shows "satisfy key s =
           (Inl (KeyError (''Condition '' @ [dq] @ key @ [dq] @
                   '' has not been declared and could not be disarmed.'')), s)
       \<and> invoke key s =
           (Inl (KeyError (''Condition '' @ [dq] @ key @ [dq] @
                   '' has not been declared and could not be invoked'')), s)"
proof -
  from assms have "map_of (DEFERRED_WARNINGS s) key = None"
    by (simp add: map_of_eq_None_iff)
  then show ?thesis
    by (simp add: satisfy_def invoke_def)
qed

theorem undeclared_key_witness:
  "''nonexistent'' \<notin> fst ` set (DEFERRED_WARNINGS example_state)
   \<and> fst (satisfy ''nonexistent'' example_state) =
       Inl (KeyError (''Condition '' @ [dq] @ ''nonexistent'' @ [dq] @
               '' has not been declared and could not be disarmed.''))
   \<and> fst (invoke ''nonexistent'' example_state) =
       Inl (KeyError (''Condition '' @ [dq] @ ''nonexistent'' @ [dq] @
               '' has not been declared and could not be invoked''))"
proof -
  have h: "''nonexistent'' \<notin> fst ` set (DEFERRED_WARNINGS example_state)"
    by (simp add: example_state_registry)
  from undeclared_key [OF h] h show ?thesis by simp
qed

text \<open>
  C6. Invoking a warning that is not satisfied and whose message was never supplied raises
  the \<open>ValueError\<close> of the source (the spec's precondition error), and changes nothing.
\<close>

theorem dw_invoke_unarmed:
  assumes "\<not> satisfied (store s a)" and "message (store s a) = None"
  shows "dw_invoke a s = (Inl (ValueError ''didn't supply parameter!''), s)"
  using assms by (simp add: dw_invoke_def)

theorem dw_invoke_unarmed_witness:
  "\<not> satisfied (store (snd (DeferredWarning_init ''c'' (field_message ''c'') True init_state)) 0)
   \<and> message (store (snd (DeferredWarning_init ''c'' (field_message ''c'') True init_state)) 0)
       = None
   \<and> fst (dw_invoke 0 (snd (DeferredWarning_init ''c'' (field_message ''c'') True init_state)))
       = Inl (ValueError ''didn't supply parameter!'')"
  using dw_invoke_unarmed
    [of "snd (DeferredWarning_init ''c'' (field_message ''c'') True init_state)" 0]
  by (simp add: DeferredWarning_init_def init_state_def)

text \<open>
  C7. For every field name \<open>n\<close> and condition \<open>c\<close>: when \<^verbatim>\<open>field(condition=c)\<close> has
  returned a field, that field refers to a warning, and after \<^verbatim>\<open>supply_parameter(n)\<close> on
  that warning its message is the template of the source applied to \<open>n\<close>. The message
  contains two dashes immediately followed by \<open>n\<close>, and it contains \<open>c\<close>.
\<close>

theorem field_message_after_supply:
  assumes "field (Some c) e dflt dfac i r h cmp m s = (Inr f, s1)"
  shows "\<exists>a. deferred_warning f = Some a
          \<and> message (store (supply_parameter a n s1) a) = Some (field_message c n)
          \<and> field_message c n =
              ''Value provided for --'' @ n @ '' but required condition '' @ [dq] @ c @ [dq] @
              '' not met.''
          \<and> (\<exists>pre post. field_message c n = pre @ ''--'' @ n @ post)
          \<and> (\<exists>pre post. field_message c n = pre @ c @ post)"
proof -
  from assms have f: "deferred_warning f = Some (next_addr s)"
    and s1: "s1 = snd (DeferredWarning_init c (field_message c) e s)"
    by (auto simp: field_def DeferredWarning_init_def WarnedField_init_def Let_def
        split: if_splits)
  have msg: "message (store (supply_parameter (next_addr s) n s1) (next_addr s))
             = Some (field_message c n)"
    by (simp add: s1 supply_parameter_def DeferredWarning_init_def)
  have shape: "field_message c n =
      ''Value provided for --'' @ n @ '' but required condition '' @ [dq] @ c @ [dq] @
      '' not met.''"
    by (simp add: field_message_def)
  have dashes: "field_message c n =
      ''Value provided for '' @ ''--'' @ n @
      ('' but required condition '' @ [dq] @ c @ [dq] @ '' not met.'')"
    by (simp add: field_message_def)
  have cond: "field_message c n =
      (''Value provided for --'' @ n @ '' but required condition '' @ [dq]) @ c @
      ([dq] @ '' not met.'')"
    by (simp add: field_message_def)
  from f msg shape dashes cond show ?thesis by blast
qed

theorem field_message_after_supply_witness:
  "field (Some ''distributed'') True (None :: int option) None True True None True None init_state
     = (Inr (WarnedField_init (Some 0) None None True True None True None),
        snd (DeferredWarning_init ''distributed'' (field_message ''distributed'') True init_state))
   \<and> message (store (supply_parameter 0 ''retries''
         (snd (DeferredWarning_init ''distributed'' (field_message ''distributed'') True
            init_state))) 0)
       = Some (''Value provided for --retries but required condition '' @ [dq] @
               ''distributed'' @ [dq] @ '' not met.'')"
proof -
  have h: "field (Some ''distributed'') True (None :: int option) None True True None True None
       init_state
     = (Inr (WarnedField_init (Some 0) None None True True None True None),
        snd (DeferredWarning_init ''distributed'' (field_message ''distributed'') True init_state))"
    by (simp add: field_def DeferredWarning_init_def init_state_def)
  from field_message_after_supply [OF h, of "''retries''"] h show ?thesis
    by (auto simp: WarnedField_init_def)
qed

text \<open>
  C8. \<^verbatim>\<open>field\<close> called with both a default and a default factory raises the
  \<open>ValueError\<close> of the source (the spec's configuration error); the raise happens in the
  call of \<^verbatim>\<open>field\<close>, which a class body makes while the class is being defined. With at
  most one of the two supplied it returns the field specification built from its arguments.
\<close>

theorem field_defaults:
  "fst (field cond e (Some d) (Some g) i r h c m s)
     = Inl (ValueError ''cannot specify both default and default_factory'')
   \<and> (dflt = None \<or> dfac = None \<longrightarrow>
        fst (field cond e dflt dfac i r h c m s)
          = Inr (WarnedField_init (case cond of None \<Rightarrow> None | Some k \<Rightarrow> Some (next_addr s))
                   dflt dfac i r h c m))"
  by (auto simp: field_def DeferredWarning_init_def Let_def split: option.splits)

theorem field_defaults_witness:
  "((Some (1::int)) = None \<or> (None :: (unit \<Rightarrow> int) option) = None)
   \<and> fst (field None False (Some (1::int)) None True True None True None init_state)
       = Inr (WarnedField_init None (Some 1) None True True None True None)
   \<and> fst (field None False (Some (1::int)) (Some (\<lambda>u. 2)) True True None True None init_state)
       = Inl (ValueError ''cannot specify both default and default_factory'')"
  using field_defaults [of None False "1::int" "\<lambda>u. 2" True True None True None init_state
      "Some 1" None]
  by simp

text \<open>
  C9. When the class processing has produced a class whose field table contains an object
  without a warning (a field whose warning reference is \<^verbatim>\<open>None\<close>, or an object that lacks
  the attribute), applying the decorator, in either form, raises \<open>AttributeError\<close> in the
  registration loop; the object is not skipped.
\<close>

theorem decorator_raises_on_field_without_warning:
  assumes "process_class cls i r e ord uh fr = Inr cls'"
    and "list_ex no_warning (FIELDS cls')"
  shows "\<exists>attr.
           fst (warned_process_class process_class FIELDS cls i r e ord uh fr s)
             = Inl (AttributeError attr)
         \<and> fst (decorate (dataclass process_class FIELDS (Some cls) i r e ord uh fr) cls s)
             = Inl (AttributeError attr)
         \<and> fst (decorate (dataclass process_class FIELDS None i r e ord uh fr) cls s)
             = Inl (AttributeError attr)"
proof -
  from register_items_no_warning [OF assms(2), of s]
  obtain attr s' where "register_items (FIELDS cls') s = (Inl (AttributeError attr), s')"
    by blast
  with assms(1)
  have "fst (warned_process_class process_class FIELDS cls i r e ord uh fr s)
      = Inl (AttributeError attr)"
    by (simp add: warned_process_class_def)
  then show ?thesis
    by (auto simp: dataclass_def)
qed

theorem decorator_raises_on_field_without_warning_witness:
  "accept_class
     [FieldItem ''a'' (WarnedField_init (Some 0) (None :: int option) None True True None True None),
      FieldItem ''x'' (WarnedField_init None None None True True None True None)]
     True True True False False False
     = Inr [FieldItem ''a'' (WarnedField_init (Some 0) None None True True None True None),
            FieldItem ''x'' (WarnedField_init None None None True True None True None)]
   \<and> list_ex no_warning
        (id [FieldItem ''a''
               (WarnedField_init (Some 0) (None :: int option) None True True None True None),
             FieldItem ''x'' (WarnedField_init None None None True True None True None)])
   \<and> (\<exists>attr. fst (warned_process_class accept_class id
         [FieldItem ''a''
            (WarnedField_init (Some 0) (None :: int option) None True True None True None),
          FieldItem ''x'' (WarnedField_init None None None True True None True None)]
         True True True False False False
         (snd (DeferredWarning_init ''c'' (field_message ''c'') False init_state)))
       = Inl (AttributeError attr))"
proof -
  let ?cls = "[FieldItem ''a''
                 (WarnedField_init (Some 0) (None :: int option) None True True None True None),
               FieldItem ''x'' (WarnedField_init None None None True True None True None)]"
  have h1: "accept_class ?cls True True True False False False = Inr ?cls"
    by (simp add: accept_class_def)
  have h2: "list_ex no_warning (id ?cls)"
    by (simp add: WarnedField_init_def)
  from decorator_raises_on_field_without_warning
      [where process_class = accept_class and FIELDS = id and cls = ?cls and cls' = ?cls
         and s = "snd (DeferredWarning_init ''c'' (field_message ''c'') False init_state)",
       OF h1 h2] h1 h2
  show ?thesis by blast
qed

text \<open>
  C10. \<^verbatim>\<open>field\<close> called without a condition does not look at \<^verbatim>\<open>error_on_invoke\<close> (the
  result is the same for both values), creates no warning and changes no state, and the
  field it returns carries no warning. When the registration loop reaches such a field, in
  any state, it raises and leaves the state as it is (as it does when the iteration yields
  an object without the attribute): no entry is added to the registry, so nothing that a
  later \<^verbatim>\<open>invoke\<close> logs or raises comes from this field.
\<close>

theorem field_without_condition:
  "field None e dflt dfac i r h c m s = field None e' dflt dfac i r h c m s
   \<and> snd (field None e dflt dfac i r h c m s) = s
   \<and> (\<forall>f. fst (field None e dflt dfac i r h c m s) = Inr f \<longrightarrow>
         deferred_warning f = None
         \<and> register_items (FieldItem nm f # rest) t
             = (Inl (AttributeError ''supply_parameter''), t)
         \<and> register_items (NoAttrItem # rest) t
             = (Inl (AttributeError ''_deferred_warning''), t))"
  by (auto simp: field_def WarnedField_init_def)

theorem field_without_condition_witness:
  "fst (field None True (Some (0::int)) None True True None True None init_state)
     = Inr (WarnedField_init None (Some 0) None True True None True None)
   \<and> deferred_warning (WarnedField_init None (Some (0::int)) None True True None True None) = None
   \<and> register_items
        [FieldItem ''x'' (WarnedField_init None (Some (0::int)) None True True None True None)]
        example_state
       = (Inl (AttributeError ''supply_parameter''), example_state)"
proof -
  have h: "fst (field None True (Some (0::int)) None True True None True None init_state)
     = Inr (WarnedField_init None (Some 0) None True True None True None)"
    by (simp add: field_def)
  from field_without_condition [of True "Some (0::int)" None True True None True None init_state
      False "''x''" "[]" example_state] h
  show ?thesis by simp
qed

end
